theory Spec2Isabelle
  imports Main
begin

section \<open>The book scraper (web\_scraper\_deepseek.py) as a shallow embedding\<close>

text \<open>
  The class \<^verbatim>\<open>BookScraper\<close> fetches a paginated catalogue, extracts one dictionary per
  item and writes the dictionaries to a CSV file. The HTTP client, the HTML parser, the
  URL joiner and the operating system are collaborators outside the repository: they are
  parameters or small explicit models here, and every exception the source can meet is
  a value.
\<close>

subsection \<open>Values, exceptions and effects\<close>

datatype py_error =
  AttributeError | TypeError | KeyError | IndexError | ValueError
  | RequestException | FileNotFoundError | FileExistsError | PermissionError
  | IsADirectoryError | OSError

text \<open>A dictionary value: the rating is an integer or the string \<^verbatim>\<open>'N/A'\<close>.\<close>

datatype pyval = PStr string | PInt int

text \<open>A Python dictionary with its insertion order; \<^verbatim>\<open>{}\<close> is the empty list.\<close>

type_synonym book_data = "(string \<times> pyval) list"

datatype log_msg =
  ScrapingPage string
  | FetchingError string
  | ExtractingError py_error
  | Scraped nat string
  | ScrapingError py_error
  | SavingError py_error

text \<open>What the run does to the outside, in the order it does it.\<close>

datatype event =
  Get string | Sleep nat | LogInfo log_msg | LogError log_msg

type_synonym csv_row = "pyval list"

text \<open>
  The file system as far as the saver touches it: the directories and files that exist,
  by path as written, the paths at which the system refuses to create or open anything,
  whether the device is full, and the files opened for writing so far, oldest first.
  Intermediate directories that \<^verbatim>\<open>os.makedirs\<close> also creates are not tracked.
\<close>

record filesystem =
  dirs :: "string set"
  files :: "string \<rightharpoonup> csv_row list"
  denied :: "string set"
  full :: bool
  opened :: "string list"

record state =
  events :: "event list"
  filesys :: filesystem

definition emit :: "event \<Rightarrow> state \<Rightarrow> state" where
  "emit ev st = st\<lparr>events := events st @ [ev]\<rparr>"

subsection \<open>The parsed document, as far as the scraper looks at it\<close>

text \<open>
  An anchor tag with its attributes, a dictionary from names to values;
  \<^verbatim>\<open>a['title']\<close> raises KeyError on a missing attribute.
\<close>

record anchor =
  attrs :: "(string \<times> string) list"

record heading =
  h_a :: "anchor option"

text \<open>
  An item node (\<^verbatim>\<open>article.product_pod\<close>) by the lookups of \<^verbatim>\<open>_extract_book_data\<close>:
  \<^verbatim>\<open>book.h3\<close>, the text of \<^verbatim>\<open>find('p', class_='price_color')\<close>, the class tokens of
  \<^verbatim>\<open>find('p', class_='star-rating')\<close> and the text of
  \<^verbatim>\<open>find('p', class_='instock availability')\<close>; None where the lookup finds nothing.
\<close>

record item =
  h3 :: "heading option"
  price_color :: "string option"
  star_rating :: "string list option"
  instock :: "string option"

record li =
  li_a :: "anchor option"

text \<open>
  A page by \<^verbatim>\<open>find_all('article', class_='product_pod')\<close> and
  \<^verbatim>\<open>find('li', class_='next')\<close>.
\<close>

record page =
  product_pods :: "item list"
  next_li :: "li option"

text \<open>What \<^verbatim>\<open>session.get\<close> meets at a URL: no response at all, or a status and a body.\<close>

datatype response = ConnectionFailed | Response nat page

text \<open>
  The collaborators: the web, and \<^verbatim>\<open>urllib.parse.urljoin\<close>, which can raise ValueError.
\<close>

record world =
  site :: "string \<Rightarrow> response"
  urljoin :: "string \<Rightarrow> string \<Rightarrow> py_error + string"

record scraper =
  base_url :: string

subsection \<open>Library functions on strings\<close>

text \<open>
  \<^verbatim>\<open>str.strip()\<close>. A string is the list of its bytes, and the whitespace stripped is
  the ASCII whitespace of Python.
\<close>

definition is_space :: "char \<Rightarrow> bool" where
  "is_space c = (c \<in> set [CHR '' '', CHR 0x09, CHR 0x0A, CHR 0x0B, CHR 0x0C, CHR 0x0D,
                           CHR 0x1C, CHR 0x1D, CHR 0x1E, CHR 0x1F])"

definition strip :: "string \<Rightarrow> string" where
  "strip s = rev (dropWhile is_space (rev (dropWhile is_space s)))"

text \<open>
  \<^verbatim>\<open>os.path.dirname\<close> (posixpath): the part up to the last slash, without its trailing
  slashes unless it consists of slashes only.
\<close>

definition dirname :: "string \<Rightarrow> string" where
  "dirname p =
     (let head = rev (dropWhile (\<lambda>c. c \<noteq> CHR ''/'') (rev p))
      in if head \<noteq> [] \<and> \<not> list_all (\<lambda>c. c = CHR ''/'') head
         then rev (dropWhile (\<lambda>c. c = CHR ''/'') (rev head))
         else head)"

subsection \<open>\_get\_page\_content\<close>

text \<open>
  \<^verbatim>\<open>raise_for_status\<close> raises for a status from 400 to 599. The sleep of one second
  comes after it and before the parse. The handler catches RequestException, which is
  what the request and the status check raise; the parser raises nothing.
\<close>

definition get_page_content :: "world \<Rightarrow> string \<Rightarrow> state \<Rightarrow> page option \<times> state" where
  "get_page_content w url st =
     (let st1 = emit (Get url) st in
      case site w url of
        ConnectionFailed \<Rightarrow> (None, emit (LogError (FetchingError url)) st1)
      | Response status body \<Rightarrow>
          if 400 \<le> status \<and> status < 600
          then (None, emit (LogError (FetchingError url)) st1)
          else (Some body, emit (Sleep 1) st1))"

subsection \<open>\_extract\_book\_data\<close>

definition rating_map :: "(string \<times> int) list" where
  "rating_map = [(''One'', 1), (''Two'', 2), (''Three'', 3), (''Four'', 4), (''Five'', 5)]"

text \<open>\<^verbatim>\<open>rating_map.get(rating_class, 'N/A')\<close>\<close>

definition rating_get :: "string \<Rightarrow> pyval" where
  "rating_get rating_class =
     (case map_of rating_map rating_class of Some n \<Rightarrow> PInt n | None \<Rightarrow> PStr ''N/A'')"

text \<open>The body of the try block: the first lookup that fails raises.\<close>

definition extract_fields :: "world \<Rightarrow> scraper \<Rightarrow> item \<Rightarrow> py_error + book_data" where
  "extract_fields w self book =
     (case h3 book of
        None \<Rightarrow> Inl AttributeError
      | Some h \<Rightarrow>
     (case h_a h of
        None \<Rightarrow> Inl TypeError
      | Some a \<Rightarrow>
     (case map_of (attrs a) ''title'' of
        None \<Rightarrow> Inl KeyError
      | Some title \<Rightarrow>
     (case price_color book of
        None \<Rightarrow> Inl AttributeError
      | Some price_text \<Rightarrow>
     (case star_rating book of
        None \<Rightarrow> Inl TypeError
      | Some classes \<Rightarrow>
     (if length classes < 2 then Inl IndexError
      else
     (case instock book of
        None \<Rightarrow> Inl AttributeError
      | Some avail_text \<Rightarrow>
     (case map_of (attrs a) ''href'' of
        None \<Rightarrow> Inl KeyError
      | Some relative_url \<Rightarrow>
     (case urljoin w (base_url self) relative_url of
        Inl err \<Rightarrow> Inl err
      | Inr book_url \<Rightarrow>
          Inr [(''title'', PStr title),
               (''price'', PStr (strip price_text)),
               (''rating'', rating_get (classes ! 1)),
               (''availability'', PStr (strip avail_text)),
               (''url'', PStr book_url)])))))))))"

definition extract_book_data :: "world \<Rightarrow> scraper \<Rightarrow> item \<Rightarrow> state \<Rightarrow> book_data \<times> state" where
  "extract_book_data w self book st =
     (case extract_fields w self book of
        Inr book_data \<Rightarrow> (book_data, st)
      | Inl err \<Rightarrow> ([], emit (LogError (ExtractingError err)) st))"

subsection \<open>scrape\_books\<close>

text \<open>The for loop over the items of one page; an empty dictionary is not appended.\<close>

fun extract_page ::
  "world \<Rightarrow> scraper \<Rightarrow> item list \<Rightarrow> book_data list \<Rightarrow> state \<Rightarrow> book_data list \<times> state" where
  "extract_page w self [] all_books st = (all_books, st)"
| "extract_page w self (book # books) all_books st =
     (case extract_book_data w self book st of
        (book_data, st1) \<Rightarrow>
          extract_page w self books
            (if book_data \<noteq> [] then all_books @ [book_data] else all_books) st1)"

text \<open>\<^verbatim>\<open>urljoin(current_url, next_button.a['href'])\<close>\<close>

definition next_url :: "world \<Rightarrow> string \<Rightarrow> li \<Rightarrow> py_error + string" where
  "next_url w current_url next_button =
     (case li_a next_button of
        None \<Rightarrow> Inl TypeError
      | Some a \<Rightarrow>
          (case map_of (attrs a) ''href'' of
             None \<Rightarrow> Inl KeyError
           | Some relative_next_url \<Rightarrow> urljoin w current_url relative_next_url))"

text \<open>
  The while loop. \<^verbatim>\<open>current_url\<close> is None or a string, and the empty string is false
  too. The loop has no bound: on a site whose next links cycle it does not return, and
  the value is None.
\<close>

partial_function (option) walk ::
  "world \<Rightarrow> scraper \<Rightarrow> string option \<Rightarrow> book_data list \<Rightarrow> state
     \<Rightarrow> ((py_error + book_data list) \<times> state) option" where
  "walk w self current_url all_books st =
     (case current_url of
        None \<Rightarrow> Some (Inr all_books, st)
      | Some url \<Rightarrow>
          if url = [] then Some (Inr all_books, st)
          else
            (case get_page_content w url (emit (LogInfo (ScrapingPage url)) st) of
               (None, st1) \<Rightarrow> Some (Inr all_books, st1)
             | (Some soup, st1) \<Rightarrow>
                 (case extract_page w self (product_pods soup) all_books st1 of
                    (all_books', st2) \<Rightarrow>
                      (case next_li soup of
                         None \<Rightarrow> walk w self None all_books' st2
                       | Some next_button \<Rightarrow>
                           (case next_url w url next_button of
                              Inl err \<Rightarrow> Some (Inl err, st2)
                            | Inr nxt \<Rightarrow> walk w self (Some nxt) all_books' st2)))))"

subsection \<open>\_save\_to\_csv\<close>

text \<open>
  \<^verbatim>\<open>os.makedirs(name, exist_ok=True)\<close>: the empty name is no path and raises
  FileNotFoundError; an existing directory is accepted; an existing file raises.
\<close>

definition makedirs :: "string \<Rightarrow> filesystem \<Rightarrow> py_error + filesystem" where
  "makedirs name fs =
     (if name = [] then Inl FileNotFoundError
      else if name \<in> dirs fs then Inr fs
      else if files fs name \<noteq> None then Inl FileExistsError
      else if name \<in> denied fs then Inl PermissionError
      else Inr (fs\<lparr>dirs := insert name (dirs fs)\<rparr>))"

text \<open>\<^verbatim>\<open>open(filename, 'w')\<close> creates the file or truncates it.\<close>

definition open_w :: "string \<Rightarrow> filesystem \<Rightarrow> py_error + filesystem" where
  "open_w filename fs =
     (if filename = [] then Inl FileNotFoundError
      else if filename \<in> dirs fs \<or> last filename = CHR ''/'' then Inl IsADirectoryError
      else if filename \<in> denied fs then Inl PermissionError
      else Inr (fs\<lparr>files := (files fs)(filename \<mapsto> []),
                   opened := opened fs @ [filename]\<rparr>))"

definition write_row :: "string \<Rightarrow> csv_row \<Rightarrow> filesystem \<Rightarrow> py_error + filesystem" where
  "write_row filename row fs =
     (if full fs then Inl OSError
      else Inr (fs\<lparr>files := (files fs)(filename \<mapsto>
                  (case files fs filename of None \<Rightarrow> [] | Some rows \<Rightarrow> rows) @ [row])\<rparr>))"

text \<open>
  \<^verbatim>\<open>DictWriter._dict_to_list\<close>: a key outside the field names raises ValueError
  (\<^verbatim>\<open>extrasaction='raise'\<close>), a missing field is written as the empty string.
\<close>

definition dict_to_list :: "string list \<Rightarrow> book_data \<Rightarrow> py_error + csv_row" where
  "dict_to_list fieldnames rowdict =
     (if \<not> list_all (\<lambda>k. k \<in> set fieldnames) (map fst rowdict) then Inl ValueError
      else Inr (map (\<lambda>key. case map_of rowdict key of Some v \<Rightarrow> v | None \<Rightarrow> PStr '''')
                  fieldnames))"

fun writerows ::
  "string \<Rightarrow> string list \<Rightarrow> book_data list \<Rightarrow> filesystem \<Rightarrow> py_error option \<times> filesystem" where
  "writerows filename fieldnames [] fs = (None, fs)"
| "writerows filename fieldnames (rowdict # rest) fs =
     (case dict_to_list fieldnames rowdict of
        Inl err \<Rightarrow> (Some err, fs)
      | Inr row \<Rightarrow>
          (case write_row filename row fs of
             Inl err \<Rightarrow> (Some err, fs)
           | Inr fs1 \<Rightarrow> writerows filename fieldnames rest fs1))"

text \<open>The body of the with block, on an opened file.\<close>

definition write_csv ::
  "string \<Rightarrow> book_data list \<Rightarrow> filesystem \<Rightarrow> py_error option \<times> filesystem" where
  "write_csv filename data fs =
     (if data \<noteq> [] then
        (let fieldnames = map fst (hd data) in
         case write_row filename (map PStr fieldnames) fs of
           Inl err \<Rightarrow> (Some err, fs)
         | Inr fs1 \<Rightarrow> writerows filename fieldnames data fs1)
      else (None, fs))"

text \<open>The try block of the saver: the first step that raises ends it.\<close>

definition csv_body ::
  "book_data list \<Rightarrow> string \<Rightarrow> filesystem \<Rightarrow> py_error option \<times> filesystem" where
  "csv_body data filename fs =
     (case makedirs (dirname filename) fs of
        Inl err \<Rightarrow> (Some err, fs)
      | Inr fs1 \<Rightarrow>
          (case open_w filename fs1 of
             Inl err \<Rightarrow> (Some err, fs1)
           | Inr fs2 \<Rightarrow> write_csv filename data fs2))"

text \<open>Every exception of the saver is caught and logged; it returns nothing.\<close>

definition save_to_csv :: "book_data list \<Rightarrow> string \<Rightarrow> state \<Rightarrow> state" where
  "save_to_csv data filename st =
     (case csv_body data filename (filesys st) of
        (None, fs1) \<Rightarrow> st\<lparr>filesys := fs1\<rparr>
      | (Some err, fs1) \<Rightarrow> emit (LogError (SavingError err)) (st\<lparr>filesys := fs1\<rparr>))"

text \<open>
  The whole method: an exception of the loop is caught, logged and answered with the
  empty list, without saving.
\<close>

definition scrape_books ::
  "world \<Rightarrow> scraper \<Rightarrow> string \<Rightarrow> state \<Rightarrow> (book_data list \<times> state) option" where
  "scrape_books w self output_file st =
     (case walk w self (Some (base_url self)) [] st of
        None \<Rightarrow> None
      | Some (Inl err, st1) \<Rightarrow> Some ([], emit (LogError (ScrapingError err)) st1)
      | Some (Inr all_books, st1) \<Rightarrow>
          Some (all_books,
                emit (LogInfo (Scraped (length all_books) output_file))
                  (save_to_csv all_books output_file st1)))"

section \<open>What a run is observed by\<close>

text \<open>The URLs requested and the delays slept, in order.\<close>

fun fetched :: "event list \<Rightarrow> string list" where
  "fetched [] = []"
| "fetched (Get url # evs) = url # fetched evs"
| "fetched (_ # evs) = fetched evs"

fun slept :: "event list \<Rightarrow> nat list" where
  "slept [] = []"
| "slept (Sleep n # evs) = n # slept evs"
| "slept (_ # evs) = slept evs"

text \<open>The page \<^verbatim>\<open>_get_page_content\<close> returns for a URL, None when the fetch fails.\<close>

definition page_at :: "world \<Rightarrow> string \<Rightarrow> page option" where
  "page_at w url =
     (case site w url of
        ConnectionFailed \<Rightarrow> None
      | Response status body \<Rightarrow> if 400 \<le> status \<and> status < 600 then None else Some body)"

text \<open>The dictionary \<^verbatim>\<open>_extract_book_data\<close> returns for an item, and the ones a page adds.\<close>

definition record_of :: "world \<Rightarrow> scraper \<Rightarrow> item \<Rightarrow> book_data" where
  "record_of w self book = (case extract_fields w self book of Inr d \<Rightarrow> d | Inl err \<Rightarrow> [])"

definition page_records :: "world \<Rightarrow> scraper \<Rightarrow> page \<Rightarrow> book_data list" where
  "page_records w self p = filter (\<lambda>d. d \<noteq> []) (map (record_of w self) (product_pods p))"

text \<open>The state after one page has been fetched and its items extracted.\<close>

definition after_page ::
  "world \<Rightarrow> scraper \<Rightarrow> string \<Rightarrow> page \<Rightarrow> book_data list \<Rightarrow> state \<Rightarrow> state" where
  "after_page w self url p all_books st =
     snd (extract_page w self (product_pods p) all_books
            (emit (Sleep 1) (emit (Get url) (emit (LogInfo (ScrapingPage url)) st))))"

text \<open>
  A chain of pages: every URL is a non-empty string whose fetch succeeds with the page
  beside it, every page but the last has a next link that resolves to the following URL,
  and the last page has none.
\<close>

fun chain :: "world \<Rightarrow> string list \<Rightarrow> page list \<Rightarrow> bool" where
  "chain w [url] [p] = (url \<noteq> [] \<and> page_at w url = Some p \<and> next_li p = None)"
| "chain w (url # nxt # urls) (p # q # ps) =
     (url \<noteq> [] \<and> page_at w url = Some p
      \<and> (case next_li p of
           None \<Rightarrow> False
         | Some next_button \<Rightarrow> next_url w url next_button = Inr nxt)
      \<and> chain w (nxt # urls) (q # ps))"
| "chain w _ _ = False"

text \<open>
  A chain that breaks: the pages are linked as before, and the URL the last of them
  links to (or the first URL, when there is no page) is one whose fetch fails.
\<close>

fun broken_chain :: "world \<Rightarrow> string list \<Rightarrow> page list \<Rightarrow> bool" where
  "broken_chain w [url] [] = (url \<noteq> [] \<and> page_at w url = None)"
| "broken_chain w (url # nxt # urls) (p # ps) =
     (url \<noteq> [] \<and> page_at w url = Some p
      \<and> (case next_li p of
           None \<Rightarrow> False
         | Some next_button \<Rightarrow> next_url w url next_button = Inr nxt)
      \<and> broken_chain w (nxt # urls) ps)"
| "broken_chain w _ _ = False"

text \<open>The keys of a non-empty dictionary of the extractor, in the order of its literal.\<close>

definition fieldnames :: "string list" where
  "fieldnames = [''title'', ''price'', ''rating'', ''availability'', ''url'']"

definition is_record :: "book_data \<Rightarrow> bool" where
  "is_record d =
     (map fst d = fieldnames
      \<and> (case map_of d ''title'' of Some (PStr t) \<Rightarrow> True | _ \<Rightarrow> False))"

section \<open>A concrete catalogue\<close>

text \<open>
  \<^verbatim>\<open>urllib.parse.urljoin\<close> for a base \<^verbatim>\<open>scheme://netloc/path\<close> and a reference that is
  either a full http(s) URL or a path; references with a query, a fragment, parameters,
  another scheme or a leading double slash are outside this model. The path is merged as
  the library does it: the last segment of the base path is dropped, empty inner
  segments are removed, and dot segments are resolved.
\<close>

fun split_on :: "char \<Rightarrow> string \<Rightarrow> string list" where
  "split_on c [] = [ [] ]"
| "split_on c (x # xs) =
     (if x = c then [] # split_on c xs
      else (case split_on c xs of [] \<Rightarrow> [ [x] ] | s # ss \<Rightarrow> (x # s) # ss))"

fun join :: "string \<Rightarrow> string list \<Rightarrow> string" where
  "join sep [] = []"
| "join sep [s] = s"
| "join sep (s # t # ss) = s @ sep @ join sep (t # ss)"

fun resolve_segments :: "string list \<Rightarrow> string list \<Rightarrow> string list" where
  "resolve_segments [] resolved_path = resolved_path"
| "resolve_segments (seg # segments) resolved_path =
     (if seg = ''..'' then resolve_segments segments (butlast resolved_path)
      else if seg = ''.'' then resolve_segments segments resolved_path
      else resolve_segments segments (resolved_path @ [seg]))"

definition merge_paths :: "string \<Rightarrow> string \<Rightarrow> string" where
  "merge_paths bpath path =
     (let parts = split_on CHR ''/'' bpath;
          base_parts = (if last parts \<noteq> [] then butlast parts else parts);
          joined = base_parts @ split_on CHR ''/'' path;
          segments =
            (if take 1 path = ''/'' then split_on CHR ''/'' path
             else take 1 joined @ filter (\<lambda>s. s \<noteq> []) (butlast (drop 1 joined))
                  @ (if 1 < length joined then [last joined] else []));
          resolved_path = resolve_segments segments [];
          resolved_path =
            (if last segments = ''.'' \<or> last segments = ''..'' then resolved_path @ [ [] ]
             else resolved_path);
          result = join ''/'' resolved_path
      in if result = [] then ''/'' else result)"

definition urljoin_model :: "string \<Rightarrow> string \<Rightarrow> py_error + string" where
  "urljoin_model base url =
     (if base = [] then Inr url
      else if url = [] then Inr base
      else if take 7 url = ''http://'' \<or> take 8 url = ''https://'' then Inr url
      else
        (let scheme = takeWhile (\<lambda>c. c \<noteq> CHR '':'') base;
             rest = drop (length scheme + 3) base;
             netloc = takeWhile (\<lambda>c. c \<noteq> CHR ''/'') rest;
             bpath = dropWhile (\<lambda>c. c \<noteq> CHR ''/'') rest
         in Inr (scheme @ ''://'' @ netloc @ merge_paths bpath url)))"

definition initial_state :: state where
  "initial_state =
     \<lparr>events = [],
      filesys = \<lparr>dirs = {}, files = Map.empty, denied = {}, full = False, opened = []\<rparr>\<rparr>"

text \<open>The same with the directory \<^verbatim>\<open>data\<close> refused by the system.\<close>

definition locked_state :: state where
  "locked_state =
     \<lparr>events = [],
      filesys = \<lparr>dirs = {}, files = Map.empty, denied = {''data''}, full = False,
                  opened = []\<rparr>\<rparr>"

definition toscrape :: scraper where
  "toscrape = \<lparr>base_url = ''https://books.toscrape.com/''\<rparr>"

definition link :: "string \<Rightarrow> li" where
  "link href = \<lparr>li_a = Some \<lparr>attrs = [(''href'', href)]\<rparr>\<rparr>"

definition product_pod :: "string \<Rightarrow> string \<Rightarrow> string option \<Rightarrow> string \<Rightarrow> item" where
  "product_pod title href price rating =
     \<lparr>h3 = Some \<lparr>h_a = Some \<lparr>attrs = [(''title'', title), (''href'', href)]\<rparr>\<rparr>,
      price_color = price,
      star_rating = Some [''star-rating'', rating],
      instock = Some ''  In stock  ''\<rparr>"

definition attic :: item where
  "attic = product_pod ''A Light in the Attic'' ''catalogue/a-light-in-the-attic_1000/index.html''
             (Some ''51.77'') ''Three''"

definition velvet :: item where
  "velvet = product_pod ''Tipping the Velvet'' ''catalogue/tipping-the-velvet_999/index.html''
              None ''One''"

definition himalayas :: item where
  "himalayas = product_pod ''Its Only the Himalayas'' ''its-only-the-himalayas_981/index.html''
                 (Some ''45.17'') ''Two''"

definition untitled :: item where
  "untitled = product_pod [] ''catalogue/untitled_1/index.html'' (Some ''10.00'') ''Zero''"

definition front_page :: page where
  "front_page = \<lparr>product_pods = [attic, velvet], next_li = Some (link ''catalogue/page-2.html'')\<rparr>"

definition second_page :: page where
  "second_page = \<lparr>product_pods = [himalayas], next_li = None\<rparr>"

definition web :: "(string \<times> response) list \<Rightarrow> world" where
  "web table =
     \<lparr>site = (\<lambda>url. case map_of table url of None \<Rightarrow> ConnectionFailed | Some r \<Rightarrow> r),
      urljoin = urljoin_model\<rparr>"

text \<open>Two pages; the same with the second page out of service; one empty page; one
  page whose only item has an empty title attribute.\<close>

definition toscrape_web :: world where
  "toscrape_web =
     web [(''https://books.toscrape.com/'', Response 200 front_page),
          (''https://books.toscrape.com/catalogue/page-2.html'', Response 200 second_page)]"

definition broken_web :: world where
  "broken_web =
     web [(''https://books.toscrape.com/'', Response 200 front_page),
          (''https://books.toscrape.com/catalogue/page-2.html'', Response 503 second_page)]"

definition empty_web :: world where
  "empty_web =
     web [(''https://books.toscrape.com/'', Response 200 \<lparr>product_pods = [], next_li = None\<rparr>)]"

definition untitled_web :: world where
  "untitled_web =
     web [(''https://books.toscrape.com/'',
           Response 200 \<lparr>product_pods = [untitled], next_li = None\<rparr>)]"

section \<open>Lemmas about the steps\<close>

lemma events_emit [simp]: "events (emit ev st) = events st @ [ev]"
  by (simp add: emit_def)

lemma filesys_emit [simp]: "filesys (emit ev st) = filesys st"
  by (simp add: emit_def)

lemma fetched_append [simp]: "fetched (xs @ ys) = fetched xs @ fetched ys"
  by (induction xs rule: fetched.induct) simp_all

lemma slept_append [simp]: "slept (xs @ ys) = slept xs @ slept ys"
  by (induction xs rule: slept.induct) simp_all

lemma get_page_content_fst: "fst (get_page_content w url st) = page_at w url"
  by (auto simp: get_page_content_def page_at_def Let_def split: response.split)

lemma get_page_content_Some:
  "page_at w url = Some p \<Longrightarrow>
   get_page_content w url st = (Some p, emit (Sleep 1) (emit (Get url) st))"
  by (auto simp: get_page_content_def page_at_def Let_def split: response.splits if_splits)

lemma get_page_content_None:
  "page_at w url = None \<Longrightarrow>
   get_page_content w url st = (None, emit (LogError (FetchingError url)) (emit (Get url) st))"
  by (auto simp: get_page_content_def page_at_def Let_def split: response.splits if_splits)

lemma extract_book_data_fst: "fst (extract_book_data w self book st) = record_of w self book"
  by (simp add: extract_book_data_def record_of_def split: sum.split)

lemma extract_book_data_snd:
  "filesys (snd (extract_book_data w self book st)) = filesys st \<and>
   fetched (events (snd (extract_book_data w self book st))) = fetched (events st) \<and>
   slept (events (snd (extract_book_data w self book st))) = slept (events st)"
  by (simp add: extract_book_data_def split: sum.split)

lemma extract_page_fst:
  "fst (extract_page w self books all_books st) =
   all_books @ filter (\<lambda>d. d \<noteq> []) (map (record_of w self) books)"
proof (induction books arbitrary: all_books st)
  case Nil
  show ?case by simp
next
  case (Cons book books)
  obtain d st1 where e: "extract_book_data w self book st = (d, st1)"
    by (cases "extract_book_data w self book st")
  from e have d: "d = record_of w self book"
    using extract_book_data_fst [of w self book st] by simp
  show ?case using Cons.IH e d by simp
qed

lemma extract_page_snd:
  "filesys (snd (extract_page w self books all_books st)) = filesys st \<and>
   fetched (events (snd (extract_page w self books all_books st))) = fetched (events st) \<and>
   slept (events (snd (extract_page w self books all_books st))) = slept (events st)"
proof (induction books arbitrary: all_books st)
  case Nil
  show ?case by simp
next
  case (Cons book books)
  obtain d st1 where e: "extract_book_data w self book st = (d, st1)"
    by (cases "extract_book_data w self book st")
  from e have s: "filesys st1 = filesys st \<and> fetched (events st1) = fetched (events st)
      \<and> slept (events st1) = slept (events st)"
    using extract_book_data_snd [of w self book st] by simp
  show ?case using Cons.IH e s by simp
qed

lemma walk_None: "walk w self None all_books st = Some (Inr all_books, st)"
  by (subst walk.simps) simp

lemma walk_empty: "walk w self (Some []) all_books st = Some (Inr all_books, st)"
  by (subst walk.simps) simp

lemma walk_fetch_failed:
  assumes "url \<noteq> []" and "page_at w url = None"
  shows "walk w self (Some url) all_books st =
         Some (Inr all_books,
               emit (LogError (FetchingError url)) (emit (Get url) (emit (LogInfo (ScrapingPage url)) st)))"
  by (subst walk.simps) (simp add: assms get_page_content_None)

lemma walk_page:
  assumes "url \<noteq> []" and "page_at w url = Some p"
  shows "walk w self (Some url) all_books st =
         (case next_li p of
            None \<Rightarrow> Some (Inr (all_books @ page_records w self p), after_page w self url p all_books st)
          | Some next_button \<Rightarrow>
              (case next_url w url next_button of
                 Inl err \<Rightarrow> Some (Inl err, after_page w self url p all_books st)
               | Inr nxt \<Rightarrow> walk w self (Some nxt) (all_books @ page_records w self p)
                             (after_page w self url p all_books st)))"
proof -
  let ?st1 = "emit (Sleep 1) (emit (Get url) (emit (LogInfo (ScrapingPage url)) st))"
  obtain bs st2 where e: "extract_page w self (product_pods p) all_books ?st1 = (bs, st2)"
    by (cases "extract_page w self (product_pods p) all_books ?st1")
  have b: "bs = all_books @ page_records w self p"
    using extract_page_fst [of w self "product_pods p" all_books ?st1] e
    by (simp add: page_records_def)
  have s: "st2 = after_page w self url p all_books st"
    using e by (simp add: after_page_def)
  show ?thesis
    by (subst walk.simps)
       (simp add: assms get_page_content_Some e b [symmetric] s [symmetric] walk_None
             del: One_nat_def split: option.split sum.split)
qed

lemma after_page_obs:
  "filesys (after_page w self url p all_books st) = filesys st \<and>
   fetched (events (after_page w self url p all_books st)) = fetched (events st) @ [url] \<and>
   slept (events (after_page w self url p all_books st)) = slept (events st) @ [1]"
  using extract_page_snd [of w self "product_pods p" all_books
      "emit (Sleep 1) (emit (Get url) (emit (LogInfo (ScrapingPage url)) st))"]
  by (simp add: after_page_def)


lemma chain_length: "chain w urls ps \<Longrightarrow> length urls = length ps \<and> urls \<noteq> []"
  by (induction w urls ps rule: chain.induct) simp_all

lemma broken_chain_length: "broken_chain w urls ps \<Longrightarrow> length urls = Suc (length ps)"
  by (induction w urls ps rule: broken_chain.induct) simp_all

lemma walk_chain:
  "chain w urls ps \<Longrightarrow>
   \<exists>st'. walk w self (Some (hd urls)) all_books st =
           Some (Inr (all_books @ concat (map (page_records w self) ps)), st')
      \<and> filesys st' = filesys st
      \<and> fetched (events st') = fetched (events st) @ urls
      \<and> slept (events st') = slept (events st) @ replicate (length ps) 1"
proof (induction w urls ps arbitrary: all_books st rule: chain.induct)
  case (1 w url p)
  then show ?case
    using after_page_obs [of w self url p all_books st]
    by (simp add: walk_page del: One_nat_def)
next
  case (2 w url nxt urls p q ps)
  from "2.prems" obtain next_button where
    u: "url \<noteq> []" and pg: "page_at w url = Some p" and
    nb: "next_li p = Some next_button" and nu: "next_url w url next_button = Inr nxt" and
    rest: "chain w (nxt # urls) (q # ps)"
    by (auto split: option.splits)
  let ?acc = "all_books @ page_records w self p"
  let ?st = "after_page w self url p all_books st"
  from "2.IH" [OF rest, of ?acc ?st] obtain st' where
    w: "walk w self (Some nxt) ?acc ?st =
          Some (Inr (?acc @ concat (map (page_records w self) (q # ps))), st')" and
    f: "filesys st' = filesys ?st" and
    g: "fetched (events st') = fetched (events ?st) @ nxt # urls" and
    s: "slept (events st') = slept (events ?st) @ replicate (length (q # ps)) 1"
    by auto
  have "walk w self (Some url) all_books st = walk w self (Some nxt) ?acc ?st"
    by (simp add: walk_page [OF u pg] nb nu)
  with w f g s after_page_obs [of w self url p all_books st] show ?case
    by (simp del: One_nat_def add: replicate_append_same)
qed simp_all

lemma walk_broken_chain:
  "broken_chain w urls ps \<Longrightarrow>
   \<exists>st'. walk w self (Some (hd urls)) all_books st =
           Some (Inr (all_books @ concat (map (page_records w self) ps)), st')
      \<and> filesys st' = filesys st
      \<and> fetched (events st') = fetched (events st) @ urls
      \<and> slept (events st') = slept (events st) @ replicate (length ps) 1"
proof (induction w urls ps arbitrary: all_books st rule: broken_chain.induct)
  case (1 w url)
  then show ?case
    by (simp add: walk_fetch_failed)
next
  case (2 w url nxt urls p ps)
  from "2.prems" obtain next_button where
    u: "url \<noteq> []" and pg: "page_at w url = Some p" and
    nb: "next_li p = Some next_button" and nu: "next_url w url next_button = Inr nxt" and
    rest: "broken_chain w (nxt # urls) ps"
    by (auto split: option.splits)
  let ?acc = "all_books @ page_records w self p"
  let ?st = "after_page w self url p all_books st"
  from "2.IH" [OF rest, of ?acc ?st] obtain st' where
    w: "walk w self (Some nxt) ?acc ?st =
          Some (Inr (?acc @ concat (map (page_records w self) ps)), st')" and
    f: "filesys st' = filesys ?st" and
    g: "fetched (events st') = fetched (events ?st) @ nxt # urls" and
    s: "slept (events st') = slept (events ?st) @ replicate (length ps) 1"
    by auto
  have "walk w self (Some url) all_books st = walk w self (Some nxt) ?acc ?st"
    by (simp add: walk_page [OF u pg] nb nu)
  with w f g s after_page_obs [of w self url p all_books st] show ?case
    by (simp del: One_nat_def add: replicate_append_same)
qed simp_all

lemma scrape_books_completed:
  "walk w self (Some (base_url self)) [] st = Some (Inr all_books, st1) \<Longrightarrow>
   scrape_books w self output_file st =
     Some (all_books,
           emit (LogInfo (Scraped (length all_books) output_file))
             (save_to_csv all_books output_file st1))"
  by (simp add: scrape_books_def)

lemma filesys_save_to_csv:
  "filesys (save_to_csv data filename st) = snd (csv_body data filename (filesys st))"
  by (simp add: save_to_csv_def split: prod.split option.split)

lemma events_save_to_csv:
  "events (save_to_csv data filename st) =
   events st @ (case fst (csv_body data filename (filesys st)) of
                  None \<Rightarrow> [] | Some err \<Rightarrow> [LogError (SavingError err)])"
  by (simp add: save_to_csv_def split: prod.split option.split)

lemma walk_filesys:
  assumes "walk w self current_url all_books st = Some y"
  shows "filesys (snd y) = filesys st"
proof (rule walk.raw_induct
    [where P = "\<lambda>w self current_url all_books st y. filesys (snd y) = filesys st",
      OF _ assms], goal_cases)
  case (1 walk' w self current_url all_books st y)
  show ?case
  proof (cases current_url)
    case None
    with 1(2) show ?thesis by auto
  next
    case (Some url)
    show ?thesis
    proof (cases "url = []")
      case True
      with Some 1(2) show ?thesis by auto
    next
      case False
      show ?thesis
      proof (cases "page_at w url")
        case None
        with Some False 1(2) show ?thesis
          by (auto simp: get_page_content_None)
      next
        case (Some p)
        let ?st2 = "after_page w self url p all_books st"
        let ?acc = "all_books @ page_records w self p"
        have e: "extract_page w self (product_pods p) all_books
                   (emit (Sleep 1) (emit (Get url) (emit (LogInfo (ScrapingPage url)) st)))
                 = (?acc, ?st2)"
          using extract_page_fst [of w self "product_pods p" all_books
                  "emit (Sleep 1) (emit (Get url) (emit (LogInfo (ScrapingPage url)) st))"]
          by (simp add: after_page_def page_records_def prod_eq_iff)
        have o: "filesys ?st2 = filesys st"
          using after_page_obs [of w self url p all_books st] by simp
        from 1(2) \<open>current_url = Some url\<close> False Some e
        have "(case next_li p of
                 None \<Rightarrow> walk' w self None ?acc ?st2
               | Some next_button \<Rightarrow>
                   (case next_url w url next_button of
                      Inl err \<Rightarrow> Some (Inl err, ?st2)
                    | Inr nxt \<Rightarrow> walk' w self (Some nxt) ?acc ?st2)) = Some y"
          by (simp add: get_page_content_Some del: One_nat_def)
        then show ?thesis
          using 1(1) o by (auto split: option.splits sum.splits)
      qed
    qed
  qed
qed

lemma extract_fields_is_record: "extract_fields w self book = Inr d \<Longrightarrow> is_record d"
  by (auto simp: extract_fields_def is_record_def fieldnames_def
           split: option.splits if_splits sum.splits)

lemma record_of_is_record: "record_of w self book \<noteq> [] \<Longrightarrow> is_record (record_of w self book)"
  by (auto simp: record_of_def extract_fields_is_record split: sum.splits)

lemma page_records_is_record: "d \<in> set (page_records w self p) \<Longrightarrow> is_record d"
  by (auto simp: page_records_def record_of_is_record)

lemma walk_records:
  assumes "walk w self current_url all_books st = Some y"
  shows "(\<forall>d\<in>set all_books. is_record d) \<longrightarrow>
         (\<forall>books. fst y = Inr books \<longrightarrow> (\<forall>d\<in>set books. is_record d))"
proof (rule walk.raw_induct
    [where P = "\<lambda>w self current_url all_books st y.
        (\<forall>d\<in>set all_books. is_record d) \<longrightarrow>
        (\<forall>books. fst y = Inr books \<longrightarrow> (\<forall>d\<in>set books. is_record d))",
      OF _ assms], goal_cases)
  case (1 walk' w self current_url all_books st y)
  show ?case
  proof (cases current_url)
    case None
    with 1(2) show ?thesis by auto
  next
    case (Some url)
    show ?thesis
    proof (cases "url = []")
      case True
      with Some 1(2) show ?thesis by auto
    next
      case False
      show ?thesis
      proof (cases "page_at w url")
        case None
        with Some False 1(2) show ?thesis
          by (auto simp: get_page_content_None)
      next
        case (Some p)
        let ?st2 = "after_page w self url p all_books st"
        let ?acc = "all_books @ page_records w self p"
        have e: "extract_page w self (product_pods p) all_books
                   (emit (Sleep 1) (emit (Get url) (emit (LogInfo (ScrapingPage url)) st)))
                 = (?acc, ?st2)"
          using extract_page_fst [of w self "product_pods p" all_books
                  "emit (Sleep 1) (emit (Get url) (emit (LogInfo (ScrapingPage url)) st))"]
          by (simp add: after_page_def page_records_def prod_eq_iff)
        have o: "(\<forall>d\<in>set all_books. is_record d) \<Longrightarrow> (\<forall>d\<in>set ?acc. is_record d)"
          by (auto simp: page_records_is_record)
        from 1(2) \<open>current_url = Some url\<close> False Some e
        have "(case next_li p of
                 None \<Rightarrow> walk' w self None ?acc ?st2
               | Some next_button \<Rightarrow>
                   (case next_url w url next_button of
                      Inl err \<Rightarrow> Some (Inl err, ?st2)
                    | Inr nxt \<Rightarrow> walk' w self (Some nxt) ?acc ?st2)) = Some y"
          by (simp add: get_page_content_Some del: One_nat_def)
        then show ?thesis
        proof (cases "next_li p")
          case None
          assume "(case next_li p of
                 None \<Rightarrow> walk' w self None ?acc ?st2
               | Some next_button \<Rightarrow>
                   (case next_url w url next_button of
                      Inl err \<Rightarrow> Some (Inl err, ?st2)
                    | Inr nxt \<Rightarrow> walk' w self (Some nxt) ?acc ?st2)) = Some y"
          with None have "walk' w self None ?acc ?st2 = Some y" by simp
          from 1(1) [OF this] o show ?thesis by blast
        next
          case (Some next_button)
          assume a: "(case next_li p of
                 None \<Rightarrow> walk' w self None ?acc ?st2
               | Some next_button \<Rightarrow>
                   (case next_url w url next_button of
                      Inl err \<Rightarrow> Some (Inl err, ?st2)
                    | Inr nxt \<Rightarrow> walk' w self (Some nxt) ?acc ?st2)) = Some y"
          show ?thesis
          proof (cases "next_url w url next_button")
            case (Inl err)
            with a Some have "y = (Inl err, ?st2)" by simp
            then show ?thesis by simp
          next
            case (Inr nxt)
            with a Some have "walk' w self (Some nxt) ?acc ?st2 = Some y" by simp
            from 1(1) [OF this] o show ?thesis by blast
          qed
        qed
      qed
    qed
  qed
qed

lemma dict_to_list_record:
  "map fst d = fieldnames \<Longrightarrow> dict_to_list fieldnames d = Inr (map snd d)"
  by (auto simp: dict_to_list_def fieldnames_def map_eq_Cons_conv)

lemma write_row_ok:
  "\<not> full fs \<Longrightarrow>
   write_row filename row fs =
     Inr (fs\<lparr>files := (files fs)(filename \<mapsto>
            (case files fs filename of None \<Rightarrow> [] | Some rows \<Rightarrow> rows) @ [row])\<rparr>)"
  by (simp add: write_row_def)

lemma writerows_ok:
  "\<not> full fs \<Longrightarrow> \<forall>d\<in>set data. map fst d = fieldnames \<Longrightarrow> files fs filename = Some rows \<Longrightarrow>
   writerows filename fieldnames data fs =
     (None, fs\<lparr>files := (files fs)(filename \<mapsto> rows @ map (map snd) data)\<rparr>)"
proof (induction data arbitrary: fs rows)
  case Nil
  then show ?case by (simp add: fun_upd_idem)
next
  case (Cons d data)
  let ?fs1 = "fs\<lparr>files := (files fs)(filename \<mapsto> rows @ [map snd d])\<rparr>"
  have r: "dict_to_list fieldnames d = Inr (map snd d)"
    using Cons.prems(2) by (simp add: dict_to_list_record)
  have w: "write_row filename (map snd d) fs = Inr ?fs1"
    using Cons.prems(1,3) by (simp add: write_row_def)
  have "writerows filename fieldnames data ?fs1 =
          (None, ?fs1\<lparr>files := (files ?fs1)(filename \<mapsto> (rows @ [map snd d]) @ map (map snd) data)\<rparr>)"
    by (rule Cons.IH) (use Cons.prems in simp_all)
  then show ?case using r w by (simp add: fun_upd_def fun_eq_iff cong: if_cong)
qed

lemma write_csv_ok:
  assumes "\<not> full fs" and "\<forall>d\<in>set data. map fst d = fieldnames" and "files fs filename = Some []"
  shows "write_csv filename data fs =
     (None, fs\<lparr>files := (files fs)(filename \<mapsto>
               (if data = [] then [] else map PStr fieldnames # map (map snd) data))\<rparr>)"
proof (cases data)
  case Nil
  then show ?thesis using assms by (simp add: write_csv_def fun_upd_idem)
next
  case (Cons d ds)
  let ?fs1 = "fs\<lparr>files := (files fs)(filename \<mapsto> [map PStr fieldnames])\<rparr>"
  have h: "map fst (hd data) = fieldnames" using Cons assms(2) by simp
  have w: "write_row filename (map PStr fieldnames) fs = Inr ?fs1"
    using assms(1,3) by (simp add: write_row_def)
  have "writerows filename fieldnames data ?fs1 =
          (None, ?fs1\<lparr>files := (files ?fs1)(filename \<mapsto> [map PStr fieldnames] @ map (map snd) data)\<rparr>)"
    by (rule writerows_ok) (use assms in simp_all)
  then show ?thesis using Cons h w by (simp add: write_csv_def)
qed

lemma length_dirname: "p \<noteq> [] \<Longrightarrow> last p \<noteq> CHR ''/'' \<Longrightarrow> length (dirname p) < length p"
proof -
  assume p: "p \<noteq> []" and l: "last p \<noteq> CHR ''/''"
  let ?head = "rev (dropWhile (\<lambda>c. c \<noteq> CHR ''/'') (rev p))"
  from p obtain x xs where r: "rev p = x # xs" by (cases "rev p") auto
  with p l have "x \<noteq> CHR ''/''" by (metis last_rev list.sel(1) rev_is_Nil_conv rev_rev_ident hd_rev)
  with r have "length ?head \<le> length xs"
    by (simp add: length_dropWhile_le)
  moreover from r have "length p = Suc (length xs)" by (metis length_Cons length_rev)
  moreover have "length (rev (dropWhile (\<lambda>c. c = CHR ''/'') (rev ?head))) \<le> length ?head"
    using length_dropWhile_le [of "\<lambda>c. c = CHR ''/''" "rev ?head"] by simp
  ultimately show ?thesis
    by (simp add: dirname_def Let_def)
qed

lemma csv_body_ok:
  assumes d: "dirname filename \<noteq> []" and l: "last filename \<noteq> CHR ''/''"
    and dd: "dirname filename \<notin> denied fs" and df: "files fs (dirname filename) = None"
    and fd: "filename \<notin> dirs fs" and fde: "filename \<notin> denied fs" and nf: "\<not> full fs"
    and recs: "\<forall>d\<in>set data. map fst d = fieldnames"
  shows "csv_body data filename fs =
     (None, fs\<lparr>dirs := insert (dirname filename) (dirs fs),
               files := (files fs)(filename \<mapsto>
                  (if data = [] then [] else map PStr fieldnames # map (map snd) data)),
               opened := opened fs @ [filename]\<rparr>)"
proof -
  from d have ne: "filename \<noteq> []" by (auto simp: dirname_def)
  with l have neq: "filename \<noteq> dirname filename"
    using length_dirname [of filename] by auto
  let ?fs1 = "fs\<lparr>dirs := insert (dirname filename) (dirs fs)\<rparr>"
  have m: "makedirs (dirname filename) fs = Inr ?fs1 \<or> (makedirs (dirname filename) fs = Inr fs \<and> ?fs1 = fs)"
    using d dd df by (auto simp: makedirs_def insert_absorb)
  then have m': "makedirs (dirname filename) fs = Inr ?fs1" by auto
  let ?fs2 = "?fs1\<lparr>files := (files ?fs1)(filename \<mapsto> []), opened := opened ?fs1 @ [filename]\<rparr>"
  have o: "open_w filename ?fs1 = Inr ?fs2"
    using ne l fd fde neq by (simp add: open_w_def)
  have w: "write_csv filename data ?fs2 =
     (None, ?fs2\<lparr>files := (files ?fs2)(filename \<mapsto>
               (if data = [] then [] else map PStr fieldnames # map (map snd) data))\<rparr>)"
    by (rule write_csv_ok) (use nf recs in simp_all)
  have "csv_body data filename fs = write_csv filename data ?fs2"
    by (simp add: csv_body_def m' o)
  also note w
  finally show ?thesis
    by (simp add: fun_upd_def fun_eq_iff cong: if_cong)
qed

lemma csv_body_no_directory:
  "dirname filename = [] \<Longrightarrow> csv_body data filename fs = (Some FileNotFoundError, fs)"
  by (simp add: csv_body_def makedirs_def)

section \<open>The concrete catalogue, evaluated\<close>

lemma urljoin_page_2:
  "urljoin_model ''https://books.toscrape.com/'' ''catalogue/page-2.html'' =
   Inr ''https://books.toscrape.com/catalogue/page-2.html''"
  by (simp add: urljoin_model_def merge_paths_def Let_def)

lemma toscrape_chain:
  "chain toscrape_web
     [''https://books.toscrape.com/'', ''https://books.toscrape.com/catalogue/page-2.html'']
     [front_page, second_page]"
  by (simp add: toscrape_web_def web_def page_at_def front_page_def second_page_def link_def
        next_url_def urljoin_page_2)

lemma broken_web_chain:
  "broken_chain broken_web
     [''https://books.toscrape.com/'', ''https://books.toscrape.com/catalogue/page-2.html'']
     [front_page]"
  by (simp add: broken_web_def web_def page_at_def front_page_def link_def
        next_url_def urljoin_page_2)

lemma record_of_attic:
  "record_of toscrape_web toscrape attic =
     [(''title'', PStr ''A Light in the Attic''), (''price'', PStr ''51.77''),
      (''rating'', PInt 3), (''availability'', PStr ''In stock''),
      (''url'', PStr ''https://books.toscrape.com/catalogue/a-light-in-the-attic_1000/index.html'')]"
  by (simp add: record_of_def extract_fields_def attic_def product_pod_def toscrape_web_def
        web_def toscrape_def urljoin_model_def merge_paths_def Let_def strip_def is_space_def
        rating_get_def rating_map_def)

lemma record_of_velvet: "record_of w self velvet = []"
  by (simp add: record_of_def extract_fields_def velvet_def product_pod_def)

lemma record_of_himalayas:
  "record_of toscrape_web toscrape himalayas =
     [(''title'', PStr ''Its Only the Himalayas''), (''price'', PStr ''45.17''),
      (''rating'', PInt 2), (''availability'', PStr ''In stock''),
      (''url'', PStr ''https://books.toscrape.com/its-only-the-himalayas_981/index.html'')]"
  by (simp add: record_of_def extract_fields_def himalayas_def product_pod_def toscrape_web_def
        web_def toscrape_def urljoin_model_def merge_paths_def Let_def strip_def is_space_def
        rating_get_def rating_map_def)


lemma dirname_books_csv: "dirname ''books.csv'' = []"
  by (simp add: dirname_def)

lemma dirname_data_books_csv: "dirname ''data/books.csv'' = ''data''"
  by (simp add: dirname_def)

lemma page_records_front:
  "page_records toscrape_web toscrape front_page = [record_of toscrape_web toscrape attic]"
  by (simp add: page_records_def front_page_def record_of_velvet record_of_attic)

lemma page_records_second:
  "page_records toscrape_web toscrape second_page = [record_of toscrape_web toscrape himalayas]"
  by (simp add: page_records_def second_page_def record_of_himalayas)

lemma scrape_books_chain:
  assumes "chain w urls pages" and "hd urls = base_url self"
  shows "\<exists>st1. walk w self (Some (base_url self)) [] st =
               Some (Inr (concat (map (page_records w self) pages)), st1)
           \<and> scrape_books w self output_file st =
               Some (concat (map (page_records w self) pages),
                     emit (LogInfo (Scraped (length (concat (map (page_records w self) pages)))
                                      output_file))
                       (save_to_csv (concat (map (page_records w self) pages)) output_file st1))
           \<and> filesys st1 = filesys st
           \<and> fetched (events st1) = fetched (events st) @ urls
           \<and> slept (events st1) = slept (events st) @ replicate (length pages) 1"
proof -
  from walk_chain [OF assms(1), of self "[]" st] assms(2) obtain st1 where
    w: "walk w self (Some (base_url self)) [] st =
          Some (Inr (concat (map (page_records w self) pages)), st1)" and
    o: "filesys st1 = filesys st" "fetched (events st1) = fetched (events st) @ urls"
       "slept (events st1) = slept (events st) @ replicate (length pages) 1"
    by auto
  from scrape_books_completed [OF w, of output_file] w o show ?thesis
    by blast
qed

lemma scrape_books_broken_chain:
  assumes "broken_chain w urls pages" and "hd urls = base_url self"
  shows "\<exists>st1. walk w self (Some (base_url self)) [] st =
               Some (Inr (concat (map (page_records w self) pages)), st1)
           \<and> scrape_books w self output_file st =
               Some (concat (map (page_records w self) pages),
                     emit (LogInfo (Scraped (length (concat (map (page_records w self) pages)))
                                      output_file))
                       (save_to_csv (concat (map (page_records w self) pages)) output_file st1))
           \<and> filesys st1 = filesys st
           \<and> fetched (events st1) = fetched (events st) @ urls
           \<and> slept (events st1) = slept (events st) @ replicate (length pages) 1"
proof -
  from walk_broken_chain [OF assms(1), of self "[]" st] assms(2) obtain st1 where
    w: "walk w self (Some (base_url self)) [] st =
          Some (Inr (concat (map (page_records w self) pages)), st1)" and
    o: "filesys st1 = filesys st" "fetched (events st1) = fetched (events st) @ urls"
       "slept (events st1) = slept (events st) @ replicate (length pages) 1"
    by auto
  from scrape_books_completed [OF w, of output_file] w o show ?thesis
    by blast
qed

lemma toscrape_walk:
  "\<exists>st1. walk toscrape_web toscrape (Some (base_url toscrape)) [] st =
     Some (Inr [record_of toscrape_web toscrape attic, record_of toscrape_web toscrape himalayas],
           st1)"
  using scrape_books_chain [OF toscrape_chain, of toscrape st]
  by (auto simp: toscrape_def page_records_front [unfolded toscrape_def]
        page_records_second [unfolded toscrape_def])

section \<open>The claims\<close>

text \<open>
  C7. A fetch sleeps its fixed delay of one second, after the request and before it
  returns, exactly when it succeeds: the events it adds are the request and the sleep
  when it returns a page, and the request and an error line, with no sleep, when it
  returns None. It returns None exactly when there is no response or the status is
  from 400 to 599.
\<close>

theorem delay_iff_fetch_succeeded:
  "events (snd (get_page_content w url st)) =
     events st @ (if fst (get_page_content w url st) = None
                  then [Get url, LogError (FetchingError url)]
                  else [Get url, Sleep 1])
   \<and> (fst (get_page_content w url st) = None) =
       (case site w url of
          ConnectionFailed \<Rightarrow> True
        | Response status body \<Rightarrow> 400 \<le> status \<and> status < 600)"
  by (simp add: get_page_content_def Let_def split: response.split)

theorem delay_iff_fetch_succeeded_witness:
  "events (snd (get_page_content toscrape_web ''https://books.toscrape.com/'' initial_state)) =
     [Get ''https://books.toscrape.com/'', Sleep 1]
   \<and> events (snd (get_page_content broken_web
                    ''https://books.toscrape.com/catalogue/page-2.html'' initial_state)) =
     [Get ''https://books.toscrape.com/catalogue/page-2.html'',
      LogError (FetchingError ''https://books.toscrape.com/catalogue/page-2.html'')]"
  using delay_iff_fetch_succeeded
          [of toscrape_web "''https://books.toscrape.com/''" initial_state]
        delay_iff_fetch_succeeded
          [of broken_web "''https://books.toscrape.com/catalogue/page-2.html''" initial_state]
  by (simp add: toscrape_web_def broken_web_def web_def initial_state_def)

text \<open>
  C6. On an item whose other lookups succeed, the second class token of the star-rating
  element decides the rating and never fails the record: One, Two, Three, Four and Five
  give 1, 2, 3, 4 and 5, and every other token gives the sentinel string N/A.
\<close>

theorem rating_mapping_total:
  assumes "h3 book = Some h" and "h_a h = Some a"
    and "map_of (attrs a) ''title'' = Some title"
    and "price_color book = Some price_text"
    and "star_rating book = Some classes" and "2 \<le> length classes"
    and "instock book = Some avail_text"
    and "map_of (attrs a) ''href'' = Some relative_url"
    and "urljoin w (base_url self) relative_url = Inr book_url"
  shows "fst (extract_book_data w self book st) =
           [(''title'', PStr title),
            (''price'', PStr (strip price_text)),
            (''rating'',
               if classes ! 1 = ''One'' then PInt 1
               else if classes ! 1 = ''Two'' then PInt 2
               else if classes ! 1 = ''Three'' then PInt 3
               else if classes ! 1 = ''Four'' then PInt 4
               else if classes ! 1 = ''Five'' then PInt 5
               else PStr ''N/A''),
            (''availability'', PStr (strip avail_text)),
            (''url'', PStr book_url)]"
  using assms
  by (simp add: extract_book_data_def extract_fields_def rating_get_def rating_map_def)

theorem rating_mapping_total_witness:
  "map_of (fst (extract_book_data toscrape_web toscrape attic initial_state)) ''rating'' =
     Some (PInt 3)
   \<and> map_of (fst (extract_book_data untitled_web toscrape untitled initial_state)) ''rating'' =
     Some (PStr ''N/A'')"
proof -
  let ?a = "\<lparr>attrs = [(''title'', ''A Light in the Attic''),
                       (''href'', ''catalogue/a-light-in-the-attic_1000/index.html'')]\<rparr>"
  let ?u = "\<lparr>attrs = [(''title'', []), (''href'', ''catalogue/untitled_1/index.html'')]\<rparr>"
  have 1: "fst (extract_book_data toscrape_web toscrape attic initial_state) =
           [(''title'', PStr ''A Light in the Attic''),
            (''price'', PStr (strip ''51.77'')),
            (''rating'', PInt 3),
            (''availability'', PStr (strip ''  In stock  '')),
            (''url'', PStr ''https://books.toscrape.com/catalogue/a-light-in-the-attic_1000/index.html'')]"
    using rating_mapping_total [of attic "\<lparr>h_a = Some ?a\<rparr>" ?a "''A Light in the Attic''"
        "''51.77''" "[''star-rating'', ''Three'']" "''  In stock  ''"
        "''catalogue/a-light-in-the-attic_1000/index.html''" toscrape_web toscrape
        "''https://books.toscrape.com/catalogue/a-light-in-the-attic_1000/index.html''"
        initial_state]
    by (simp add: attic_def product_pod_def toscrape_web_def web_def toscrape_def
          urljoin_model_def merge_paths_def Let_def)
  have 2: "fst (extract_book_data untitled_web toscrape untitled initial_state) =
           [(''title'', PStr []),
            (''price'', PStr (strip ''10.00'')),
            (''rating'', PStr ''N/A''),
            (''availability'', PStr (strip ''  In stock  '')),
            (''url'', PStr ''https://books.toscrape.com/catalogue/untitled_1/index.html'')]"
    using rating_mapping_total [of untitled "\<lparr>h_a = Some ?u\<rparr>" ?u "[]"
        "''10.00''" "[''star-rating'', ''Zero'']" "''  In stock  ''"
        "''catalogue/untitled_1/index.html''" untitled_web toscrape
        "''https://books.toscrape.com/catalogue/untitled_1/index.html''"
        initial_state]
    by (simp add: untitled_def product_pod_def untitled_web_def web_def toscrape_def
          urljoin_model_def merge_paths_def Let_def)
  show ?thesis by (simp add: 1 2)
qed

text \<open>
  C1, as the code has it. An item without the price element yields no record: the
  extractor logs the exception and returns the empty dictionary, and the page loop
  appends nothing for it.
\<close>

theorem missing_price_drops_item:
  assumes "price_color book = None"
  shows "\<exists>err. extract_book_data w self book st =
                 ([], emit (LogError (ExtractingError err)) st)
             \<and> extract_page w self [book] all_books st =
                 (all_books, emit (LogError (ExtractingError err)) st)"
proof -
  have "\<exists>err. extract_fields w self book = Inl err"
    using assms by (simp add: extract_fields_def split: option.split)
  then show ?thesis
    by (auto simp: extract_book_data_def)
qed

theorem missing_price_drops_item_witness:
  "price_color velvet = None
   \<and> (\<exists>err. extract_book_data toscrape_web toscrape velvet initial_state =
                 ([], emit (LogError (ExtractingError err)) initial_state)
             \<and> extract_page toscrape_web toscrape [velvet] [] initial_state =
                 ([], emit (LogError (ExtractingError err)) initial_state))"
proof -
  have p: "price_color velvet = None" by (simp add: velvet_def product_pod_def)
  from missing_price_drops_item [OF p, of toscrape_web toscrape initial_state "[]"] p
  show ?thesis by simp
qed

text \<open>
  C1, as stated, fails: the item \<open>velvet\<close> has a title attribute and no price element,
  and the extractor returns the empty dictionary, which has no price field at all.
\<close>

theorem missing_price_counterexample:
  "map_of (attrs (the (h_a (the (h3 velvet))))) ''title'' = Some ''Tipping the Velvet''
   \<and> price_color velvet = None
   \<and> fst (extract_book_data toscrape_web toscrape velvet initial_state) = []
   \<and> map_of (fst (extract_book_data toscrape_web toscrape velvet initial_state)) ''price''
       \<noteq> Some (PStr ''unknown'')"
  by (simp add: velvet_def product_pod_def extract_book_data_def extract_fields_def)

text \<open>
  C4. On a chain of N pages, all fetched with success and only the last without a next
  link, the run returns: its result is the records of the pages, page after page and in
  the order of the items within each page, and the URLs it requests are exactly the N
  URLs of the chain, each once and in order.
\<close>

theorem walk_visits_chain_in_order:
  assumes "chain w urls pages" and "hd urls = base_url self"
  shows "\<exists>st'. scrape_books w self output_file st =
                 Some (concat (map (page_records w self) pages), st')
             \<and> fetched (events st') = fetched (events st) @ urls
             \<and> length urls = length pages"
proof -
  let ?books = "concat (map (page_records w self) pages)"
  from scrape_books_chain [OF assms, of st output_file] obtain st1 where
    s: "scrape_books w self output_file st =
          Some (?books, emit (LogInfo (Scraped (length ?books) output_file))
                          (save_to_csv ?books output_file st1))" and
    f: "fetched (events st1) = fetched (events st) @ urls"
    by blast
  have "fetched (events (emit (LogInfo (Scraped (length ?books) output_file))
                           (save_to_csv ?books output_file st1))) =
        fetched (events st) @ urls"
    using f by (simp add: events_save_to_csv split: option.split)
  with s chain_length [OF assms(1)] show ?thesis by simp
qed

theorem walk_visits_chain_in_order_witness:
  "\<exists>st'. scrape_books toscrape_web toscrape ''data/books.csv'' initial_state =
           Some ([record_of toscrape_web toscrape attic,
                  record_of toscrape_web toscrape himalayas], st')
        \<and> fetched (events st') =
            [''https://books.toscrape.com/'',
             ''https://books.toscrape.com/catalogue/page-2.html'']"
  using walk_visits_chain_in_order
          [OF toscrape_chain, of toscrape "''data/books.csv''" initial_state]
  by (simp add: toscrape_def initial_state_def page_records_front [unfolded toscrape_def]
        page_records_second [unfolded toscrape_def])

text \<open>
  C5. When the pages before page k are fetched and linked as a chain and the fetch of
  page k fails, the run returns the records of the pages before k; the URLs it requests
  are those of the pages before k and then the URL of page k, once, and nothing after
  it; and the file system is left as the saver leaves it when given that list.
\<close>

theorem fetch_failure_keeps_partial_results:
  assumes "broken_chain w urls pages" and "hd urls = base_url self"
  shows "\<exists>st'. scrape_books w self output_file st =
                 Some (concat (map (page_records w self) pages), st')
             \<and> fetched (events st') = fetched (events st) @ urls
             \<and> length urls = Suc (length pages)
             \<and> page_at w (last urls) = None
             \<and> filesys st' =
                 snd (csv_body (concat (map (page_records w self) pages)) output_file
                        (filesys st))"
proof -
  let ?books = "concat (map (page_records w self) pages)"
  from scrape_books_broken_chain [OF assms, of st output_file] obtain st1 where
    s: "scrape_books w self output_file st =
          Some (?books, emit (LogInfo (Scraped (length ?books) output_file))
                          (save_to_csv ?books output_file st1))" and
    f: "fetched (events st1) = fetched (events st) @ urls" and
    g: "filesys st1 = filesys st"
    by blast
  let ?st' = "emit (LogInfo (Scraped (length ?books) output_file))
                (save_to_csv ?books output_file st1)"
  have 1: "fetched (events ?st') = fetched (events st) @ urls"
    using f by (simp add: events_save_to_csv split: option.split)
  have 2: "filesys ?st' = snd (csv_body ?books output_file (filesys st))"
    using g by (simp add: filesys_save_to_csv)
  have 3: "page_at w (last urls) = None"
    using assms(1) by (induction w urls pages rule: broken_chain.induct) simp_all
  from s 1 2 3 broken_chain_length [OF assms(1)] show ?thesis by simp
qed

theorem fetch_failure_keeps_partial_results_witness:
  "\<exists>st'. scrape_books broken_web toscrape ''data/books.csv'' initial_state =
           Some (page_records broken_web toscrape front_page, st')
        \<and> fetched (events st') =
            [''https://books.toscrape.com/'',
             ''https://books.toscrape.com/catalogue/page-2.html'']
        \<and> filesys st' =
            snd (csv_body (page_records broken_web toscrape front_page) ''data/books.csv''
                   (filesys initial_state))"
proof -
  have h: "hd [''https://books.toscrape.com/'',
               ''https://books.toscrape.com/catalogue/page-2.html''] = base_url toscrape"
    by (simp add: toscrape_def)
  have e: "events initial_state = []"
    by (simp add: initial_state_def)
  from fetch_failure_keeps_partial_results
         [OF broken_web_chain h, of "''data/books.csv''" initial_state]
  show ?thesis
    by (auto simp: e)
qed




text \<open>
  C2. The URL of a record is resolved against the base URL of the scraper, not against
  the page the item is on. On the two pages of the concrete catalogue the item of page 2
  gets a URL without the directory of page 2, where resolving against page 2 gives the
  URL with it.
\<close>

theorem page_two_url_resolved_against_base_url:
  "map_option (map (\<lambda>d. map_of d ''url'') \<circ> fst)
     (scrape_books toscrape_web toscrape ''data/books.csv'' initial_state) =
     Some [Some (PStr ''https://books.toscrape.com/catalogue/a-light-in-the-attic_1000/index.html''),
           Some (PStr ''https://books.toscrape.com/its-only-the-himalayas_981/index.html'')]
   \<and> urljoin toscrape_web ''https://books.toscrape.com/catalogue/page-2.html''
        ''its-only-the-himalayas_981/index.html'' =
       Inr ''https://books.toscrape.com/catalogue/its-only-the-himalayas_981/index.html''"
proof -
  have u: "urljoin toscrape_web ''https://books.toscrape.com/catalogue/page-2.html''
        ''its-only-the-himalayas_981/index.html'' =
       Inr ''https://books.toscrape.com/catalogue/its-only-the-himalayas_981/index.html''"
    by (simp add: toscrape_web_def web_def urljoin_model_def merge_paths_def Let_def)
  from scrape_books_chain [OF toscrape_chain, of toscrape initial_state "''data/books.csv''"]
  have "map_option (map (\<lambda>d. map_of d ''url'') \<circ> fst)
     (scrape_books toscrape_web toscrape ''data/books.csv'' initial_state) =
     Some [Some (PStr ''https://books.toscrape.com/catalogue/a-light-in-the-attic_1000/index.html''),
           Some (PStr ''https://books.toscrape.com/its-only-the-himalayas_981/index.html'')]"
    by (auto simp: toscrape_def page_records_front [unfolded toscrape_def]
          page_records_second [unfolded toscrape_def] record_of_attic [unfolded toscrape_def]
          record_of_himalayas [unfolded toscrape_def])
  with u show ?thesis by simp
qed

lemma events_initial_state: "events initial_state = []"
  by (simp add: initial_state_def)

lemma walk_completed_records:
  "walk w self (Some (base_url self)) [] st = Some (Inr books, st1) \<Longrightarrow>
   \<forall>d\<in>set books. map fst d = fieldnames"
  using walk_records [of w self "Some (base_url self)" "[]" st "(Inr books, st1)"]
  by (simp add: is_record_def)

text \<open>
  C8, as the code has it. When the loop of the walk completes, the output path has a
  directory part and does not end in a slash, and the file system refuses nothing, the
  run opens the output file for writing exactly once, after the walk, and leaves it
  with the header row title, price, rating, availability, url followed by one row per
  record; whatever the file held before is gone. With no record the file is left
  empty, without a header row. The directory of the path exists afterwards.
\<close>

theorem csv_written_once_after_walk:
  assumes "walk w self (Some (base_url self)) [] st = Some (Inr books, st1)"
    and "dirname output_file \<noteq> []" and "last output_file \<noteq> CHR ''/''"
    and "dirname output_file \<notin> denied (filesys st)"
    and "files (filesys st) (dirname output_file) = None"
    and "output_file \<notin> dirs (filesys st)" and "output_file \<notin> denied (filesys st)"
    and "\<not> full (filesys st)"
  shows "\<exists>st'. scrape_books w self output_file st = Some (books, st')
           \<and> files (filesys st') output_file =
               Some (if books = [] then []
                     else map PStr [''title'', ''price'', ''rating'', ''availability'', ''url'']
                          # map (map snd) books)
           \<and> dirname output_file \<in> dirs (filesys st')
           \<and> opened (filesys st') = opened (filesys st) @ [output_file]"
proof -
  have f: "filesys st1 = filesys st"
    using walk_filesys [OF assms(1)] by simp
  have r: "\<forall>d\<in>set books. map fst d = fieldnames"
    by (rule walk_completed_records [OF assms(1)])
  have c: "csv_body books output_file (filesys st) =
     (None, (filesys st)\<lparr>dirs := insert (dirname output_file) (dirs (filesys st)),
               files := (files (filesys st))(output_file \<mapsto>
                  (if books = [] then [] else map PStr fieldnames # map (map snd) books)),
               opened := opened (filesys st) @ [output_file]\<rparr>)"
    by (rule csv_body_ok) (use assms r in simp_all)
  let ?st' = "emit (LogInfo (Scraped (length books) output_file))
                (save_to_csv books output_file st1)"
  have "filesys ?st' = snd (csv_body books output_file (filesys st))"
    by (simp add: filesys_save_to_csv f)
  with c have "files (filesys ?st') output_file =
               Some (if books = [] then [] else map PStr fieldnames # map (map snd) books)"
    and "dirname output_file \<in> dirs (filesys ?st')"
    and "opened (filesys ?st') = opened (filesys st) @ [output_file]"
    by simp_all
  with scrape_books_completed [OF assms(1), of output_file] show ?thesis
    by (simp add: fieldnames_def)
qed

theorem csv_written_once_after_walk_witness:
  "\<exists>st'. scrape_books toscrape_web toscrape ''data/books.csv'' initial_state =
           Some ([record_of toscrape_web toscrape attic,
                  record_of toscrape_web toscrape himalayas], st')
        \<and> files (filesys st') ''data/books.csv'' =
            Some [map PStr [''title'', ''price'', ''rating'', ''availability'', ''url''],
                  map snd (record_of toscrape_web toscrape attic),
                  map snd (record_of toscrape_web toscrape himalayas)]
        \<and> ''data'' \<in> dirs (filesys st')
        \<and> opened (filesys st') = [''data/books.csv'']"
proof -
  obtain st1 where w: "walk toscrape_web toscrape (Some (base_url toscrape)) [] initial_state =
     Some (Inr [record_of toscrape_web toscrape attic, record_of toscrape_web toscrape himalayas],
           st1)"
    using toscrape_walk [of initial_state] by blast
  have d: "dirname ''data/books.csv'' \<noteq> []" "last ''data/books.csv'' \<noteq> CHR ''/''"
    "dirname ''data/books.csv'' \<notin> denied (filesys initial_state)"
    "files (filesys initial_state) (dirname ''data/books.csv'') = None"
    "''data/books.csv'' \<notin> dirs (filesys initial_state)"
    "''data/books.csv'' \<notin> denied (filesys initial_state)"
    "\<not> full (filesys initial_state)"
    by (simp_all add: dirname_data_books_csv initial_state_def)
  from csv_written_once_after_walk [OF w d] show ?thesis
    by (simp add: dirname_data_books_csv initial_state_def)
qed

text \<open>
  C8, as stated, fails: on a catalogue of one page without items the walk completes and
  the file is created, but it holds no row at all, so no header row either.
\<close>

theorem no_header_counterexample:
  "map_option (\<lambda>r. (fst r, files (filesys (snd r)) ''data/books.csv''))
     (scrape_books empty_web toscrape ''data/books.csv'' initial_state) =
   Some ([], Some [])"
proof -
  have c: "chain empty_web [''https://books.toscrape.com/'']
             [\<lparr>product_pods = [], next_li = None\<rparr>]"
    by (simp add: empty_web_def web_def page_at_def)
  have h: "hd [''https://books.toscrape.com/''] = base_url toscrape"
    by (simp add: toscrape_def)
  from scrape_books_chain [OF c h, of initial_state "''data/books.csv''"]
  obtain st1 where
    s: "scrape_books empty_web toscrape ''data/books.csv'' initial_state =
          Some ([], emit (LogInfo (Scraped 0 ''data/books.csv''))
                      (save_to_csv [] ''data/books.csv'' st1))" and
    f: "filesys st1 = filesys initial_state"
    by (auto simp: page_records_def)
  have "files (snd (csv_body [] ''data/books.csv'' (filesys initial_state))) ''data/books.csv''
          = Some []"
    by (simp add: csv_body_def dirname_data_books_csv makedirs_def open_w_def write_csv_def
          initial_state_def)
  with s f show ?thesis
    by (simp add: filesys_save_to_csv)
qed

text \<open>
  C9. When the loop of the walk completes and a step of the saver raises, the run
  still returns the whole list of records: the error is logged, followed by the closing
  information line, and nothing is raised to the caller.
\<close>

theorem save_error_logged_and_records_returned:
  assumes "walk w self (Some (base_url self)) [] st = Some (Inr books, st1)"
    and "fst (csv_body books output_file (filesys st)) = Some err"
  shows "\<exists>st'. scrape_books w self output_file st = Some (books, st')
           \<and> events st' = events st1 @ [LogError (SavingError err),
                                         LogInfo (Scraped (length books) output_file)]"
proof -
  have f: "filesys st1 = filesys st"
    using walk_filesys [OF assms(1)] by simp
  from scrape_books_completed [OF assms(1), of output_file] assms(2) f show ?thesis
    by (simp add: events_save_to_csv)
qed

theorem save_error_logged_and_records_returned_witness:
  "\<exists>st'. scrape_books toscrape_web toscrape ''data/books.csv'' locked_state =
           Some ([record_of toscrape_web toscrape attic,
                  record_of toscrape_web toscrape himalayas], st')
        \<and> LogError (SavingError PermissionError) \<in> set (events st')"
proof -
  let ?books = "[record_of toscrape_web toscrape attic, record_of toscrape_web toscrape himalayas]"
  obtain st1 where w: "walk toscrape_web toscrape (Some (base_url toscrape)) [] locked_state =
     Some (Inr ?books, st1)"
    using toscrape_walk [of locked_state] by blast
  have e: "fst (csv_body ?books ''data/books.csv'' (filesys locked_state)) = Some PermissionError"
    by (simp add: csv_body_def dirname_data_books_csv makedirs_def locked_state_def)
  from save_error_logged_and_records_returned [OF w e] show ?thesis
    by auto
qed

text \<open>
  C10. When the output path has no directory part, as the default books.csv, the
  directory step of the saver raises FileNotFoundError: once the loop of the walk has
  completed, the error is logged, the file system is left untouched (no file is created
  or opened), the closing line that reports the data as saved is logged all the same,
  and the run returns the whole list of records.
\<close>

theorem no_directory_nothing_saved:
  assumes "dirname output_file = []"
    and "walk w self (Some (base_url self)) [] st = Some (Inr books, st1)"
  shows "\<exists>st'. scrape_books w self output_file st = Some (books, st')
           \<and> filesys st' = filesys st
           \<and> events st' = events st1 @ [LogError (SavingError FileNotFoundError),
                                         LogInfo (Scraped (length books) output_file)]"
proof -
  have f: "filesys st1 = filesys st"
    using walk_filesys [OF assms(2)] by simp
  have c: "csv_body books output_file (filesys st1) = (Some FileNotFoundError, filesys st1)"
    by (rule csv_body_no_directory [OF assms(1)])
  from scrape_books_completed [OF assms(2), of output_file] c f show ?thesis
    by (simp add: events_save_to_csv filesys_save_to_csv)
qed

theorem no_directory_nothing_saved_witness:
  "dirname ''books.csv'' = []
   \<and> (\<exists>st'. scrape_books toscrape_web toscrape ''books.csv'' initial_state =
           Some ([record_of toscrape_web toscrape attic,
                  record_of toscrape_web toscrape himalayas], st')
        \<and> filesys st' = filesys initial_state
        \<and> files (filesys st') ''books.csv'' = None
        \<and> opened (filesys st') = []
        \<and> LogError (SavingError FileNotFoundError) \<in> set (events st'))"
proof -
  obtain st1 where w: "walk toscrape_web toscrape (Some (base_url toscrape)) [] initial_state =
     Some (Inr [record_of toscrape_web toscrape attic, record_of toscrape_web toscrape himalayas],
           st1)"
    using toscrape_walk [of initial_state] by blast
  from no_directory_nothing_saved [OF dirname_books_csv w]
  show ?thesis
    by (auto simp: dirname_books_csv initial_state_def)
qed

end
